theory Spec2Isabelle
  imports Main "HOL-Library.Word"
begin

section \<open>JavaScript strings\<close>

text \<open>
  A JavaScript string is a sequence of UTF-16 code units. \<open>js\<close> turns an ASCII
  literal into such a string.
\<close>

type_synonym jsstring = "16 word list"

definition js :: "string \<Rightarrow> jsstring" where
  "js s = map of_char s"

text \<open>\<open>Array.prototype.join\<close>: the elements separated by \<open>sep\<close>.\<close>

fun join :: "jsstring \<Rightarrow> jsstring list \<Rightarrow> jsstring" where
  "join sep [] = []"
| "join sep [x] = x"
| "join sep (x # y # ys) = x @ sep @ join sep (y # ys)"

section \<open>Tokens\<close>

text \<open>
  The token kinds of the lexical tokenizer (\<open>Token | JSXToken\<close> of js-tokens). The
  source names sixteen of them; the other five only reach the \<open>default\<close> branches.
\<close>

datatype JSTokenType =
    StringLiteral | NoSubstitutionTemplate | TemplateHead | TemplateMiddle | TemplateTail
  | RegularExpressionLiteral | MultiLineComment | SingleLineComment | HashbangComment
  | IdentifierName | PrivateIdentifier | NumericLiteral | Punctuator | WhiteSpace
  | LineTerminatorSequence | Invalid
  | JSXString | JSXText | JSXIdentifier | JSXPunctuator | JSXInvalid

record JSToken =
  jtype :: JSTokenType
  jvalue :: jsstring

text \<open>\<open>InternalTokenType | "uncolored"\<close>\<close>

datatype InternalTokenType =
    keyword | capitalized | jsxIdentifier | punctuator | number | string | regex | comment
  | invalid | uncolored

record Token =
  ttype :: InternalTokenType
  tvalue :: jsstring

section \<open>Exceptions and collaborators\<close>

text \<open>
  \<open>TypeError\<close> is what reading a property of \<open>undefined\<close> throws; \<open>Thrown\<close> is an
  exception raised inside a collaborator.
\<close>

datatype error = TypeError | Thrown string

text \<open>
  A style function of the colour library reads the library's global \<open>enabled\<close> flag
  when it is applied: it is a function of that flag and of the text.
\<close>

type_synonym style = "bool \<Rightarrow> jsstring \<Rightarrow> error + jsstring"

record kleur =
  cyan :: style
  yellow :: style
  magenta :: style
  green :: style
  grey :: style
  white_bgRed_bold :: style

text \<open>
  The imported functions. \<open>jsTokens text\<close> stands for \<open>jsTokens(text, {jsx: true})\<close>: the
  tokens the iterator produces, in order, and the exception that ends the iteration, if
  any. \<open>toLowerCase\<close> is \<open>String.prototype.toLowerCase\<close>.
\<close>

record collaborators =
  jsTokens :: "jsstring \<Rightarrow> JSToken list \<times> error option"
  isKeyword :: "jsstring \<Rightarrow> bool"
  isStrictReservedWord :: "jsstring \<Rightarrow> bool \<Rightarrow> bool"
  toLowerCase :: "jsstring \<Rightarrow> jsstring"
  kleur :: kleur

section \<open>The classifier\<close>

definition sometimesKeywords :: "jsstring set" where
  "sometimesKeywords =
     {js ''as'', js ''async'', js ''from'', js ''get'', js ''of'', js ''set''}"

text \<open>\<open>getDefs\<close>: the styles of the nine token types; \<open>uncolored\<close> has none.\<close>

fun getDefs :: "collaborators \<Rightarrow> InternalTokenType \<Rightarrow> style option" where
  "getDefs c keyword = Some (cyan (kleur c))"
| "getDefs c capitalized = Some (yellow (kleur c))"
| "getDefs c jsxIdentifier = Some (yellow (kleur c))"
| "getDefs c punctuator = Some (yellow (kleur c))"
| "getDefs c number = Some (magenta (kleur c))"
| "getDefs c string = Some (green (kleur c))"
| "getDefs c regex = Some (magenta (kleur c))"
| "getDefs c comment = Some (grey (kleur c))"
| "getDefs c invalid = Some (white_bgRed_bold (kleur c))"
| "getDefs c uncolored = None"

text \<open>The code units the regular expression \<open>NEWLINE\<close> matches alone.\<close>

definition newline_unit :: "16 word \<Rightarrow> bool" where
  "newline_unit u = (u = 0x0A \<or> u = 0x0D \<or> u = 0x2028 \<or> u = 0x2029)"

text \<open>
  \<open>value.split(NEWLINE)\<close> with \<open>NEWLINE = /\r\n|[\n\r\u2028\u2029]/\<close>: the alternative
  \<open>\r\n\<close> is tried first, so a carriage return followed by a line feed is one separator.
\<close>

fun consHead :: "16 word \<Rightarrow> jsstring list \<Rightarrow> jsstring list" where
  "consHead u [] = [[u]]"
| "consHead u (s # ss) = (u # s) # ss"

fun split_NEWLINE :: "jsstring \<Rightarrow> jsstring list" where
  "split_NEWLINE [] = [[]]"
| "split_NEWLINE [u] = (if newline_unit u then [[], []] else [[u]])"
| "split_NEWLINE (u # v # us) =
     (if u = 0x0D \<and> v = 0x0A then [] # split_NEWLINE us
      else if newline_unit u then [] # split_NEWLINE (v # us)
      else consHead u (split_NEWLINE (v # us)))"

text \<open>\<open>BRACKET.test(value)\<close> with \<open>BRACKET = /^[()[\]{}]$/\<close>.\<close>

definition BRACKET_test :: "jsstring \<Rightarrow> bool" where
  "BRACKET_test v =
     (case v of
        [u] \<Rightarrow> u = 0x28 \<or> u = 0x29 \<or> u = 0x5B \<or> u = 0x5D \<or> u = 0x7B \<or> u = 0x7D
      | _ \<Rightarrow> False)"

text \<open>The \<open>switch\<close> at the end of \<open>getTokenType\<close>.\<close>

fun switchTokenType :: "JSTokenType \<Rightarrow> InternalTokenType" where
  "switchTokenType NumericLiteral = number"
| "switchTokenType StringLiteral = string"
| "switchTokenType JSXString = string"
| "switchTokenType NoSubstitutionTemplate = string"
| "switchTokenType RegularExpressionLiteral = regex"
| "switchTokenType Punctuator = punctuator"
| "switchTokenType JSXPunctuator = punctuator"
| "switchTokenType MultiLineComment = comment"
| "switchTokenType SingleLineComment = comment"
| "switchTokenType Invalid = invalid"
| "switchTokenType JSXInvalid = invalid"
| "switchTokenType JSXIdentifier = jsxIdentifier"
| "switchTokenType _ = uncolored"

text \<open>
  \<open>getTokenType\<close>. On an identifier name that is no keyword, \<open>token.value[0]\<close> is
  \<open>undefined\<close> when the text is empty, and calling \<open>toLowerCase\<close> on it throws.
\<close>

definition getTokenType :: "collaborators \<Rightarrow> JSToken \<Rightarrow> error + InternalTokenType" where
  "getTokenType c token =
     (if jtype token = IdentifierName \<and>
         (isKeyword c (jvalue token) \<or> isStrictReservedWord c (jvalue token) True \<or>
          jvalue token \<in> sometimesKeywords)
      then Inr keyword
      else if jtype token = IdentifierName \<and> jvalue token = [] then Inl TypeError
      else if jtype token = IdentifierName \<and>
              [hd (jvalue token)] \<noteq> toLowerCase c [hd (jvalue token)]
      then Inr capitalized
      else if jtype token = Punctuator \<and> BRACKET_test (jvalue token) then Inr uncolored
      else if jtype token = Invalid \<and> jvalue token = js ''@'' then Inr punctuator
      else Inr (switchTokenType (jtype token)))"

section \<open>The normalizer\<close>

text \<open>
  \<open>String.prototype.slice(start, end)\<close>: a negative index counts from the end, both
  indices are clamped to the string, and an absent \<open>end\<close> is the length.
\<close>

definition slice_str :: "jsstring \<Rightarrow> int \<Rightarrow> int option \<Rightarrow> jsstring" where
  "slice_str v start fin =
     (let len = int (length v);
          first = (if start < 0 then max (len + start) 0 else min start len);
          final = (case fin of
                     None \<Rightarrow> len
                   | Some e \<Rightarrow> if e < 0 then max (len + e) 0 else min e len)
      in take (nat (final - first)) (drop (nat first) v))"

text \<open>
  The generator \<open>tokenize\<close>, as the tokens it yields, in order, and the exception that
  ends it, if any. \<open>tokenizeLoop\<close> is its \<open>for\<close> loop over the tokens of the tokenizer,
  whose own end is \<open>e\<close>.
\<close>

fun yield :: "Token list \<Rightarrow> Token list \<times> error option \<Rightarrow> Token list \<times> error option" where
  "yield ts (rest, e) = (ts @ rest, e)"

fun tokenizeLoop :: "collaborators \<Rightarrow> JSToken list \<Rightarrow> error option \<Rightarrow> Token list \<times> error option"
where
  "tokenizeLoop c [] e = ([], e)"
| "tokenizeLoop c (token # tokens) e =
     (case jtype token of
        TemplateHead \<Rightarrow>
          yield [\<lparr>ttype = string, tvalue = slice_str (jvalue token) 0 (Some (- 2))\<rparr>,
                 \<lparr>ttype = punctuator, tvalue = js ''${''\<rparr>]
            (tokenizeLoop c tokens e)
      | TemplateMiddle \<Rightarrow>
          yield [\<lparr>ttype = punctuator, tvalue = js ''}''\<rparr>,
                 \<lparr>ttype = string, tvalue = slice_str (jvalue token) 1 (Some (- 2))\<rparr>,
                 \<lparr>ttype = punctuator, tvalue = js ''${''\<rparr>]
            (tokenizeLoop c tokens e)
      | TemplateTail \<Rightarrow>
          yield [\<lparr>ttype = punctuator, tvalue = js ''}''\<rparr>,
                 \<lparr>ttype = string, tvalue = slice_str (jvalue token) 1 None\<rparr>]
            (tokenizeLoop c tokens e)
      | _ \<Rightarrow>
          (case getTokenType c token of
             Inl err \<Rightarrow> ([], Some err)
           | Inr ty \<Rightarrow>
               yield [\<lparr>ttype = ty, tvalue = jvalue token\<rparr>] (tokenizeLoop c tokens e)))"

definition tokenize :: "collaborators \<Rightarrow> jsstring \<Rightarrow> Token list \<times> error option" where
  "tokenize c text = (case jsTokens c text of (tokens, e) \<Rightarrow> tokenizeLoop c tokens e)"

text \<open>What one pass of the loop yields for a token.\<close>

definition yieldsOf :: "collaborators \<Rightarrow> JSToken \<Rightarrow> Token list" where
  "yieldsOf c token = fst (tokenizeLoop c [token] None)"

section \<open>The renderer\<close>

text \<open>\<open>.map((str) => colorize(str))\<close>: the first exception ends the map.\<close>

fun mapColorize :: "(jsstring \<Rightarrow> error + jsstring) \<Rightarrow> jsstring list \<Rightarrow> error + jsstring list"
where
  "mapColorize colorize [] = Inr []"
| "mapColorize colorize (s # ss) =
     (case colorize s of
        Inl err \<Rightarrow> Inl err
      | Inr x \<Rightarrow>
          (case mapColorize colorize ss of Inl err \<Rightarrow> Inl err | Inr xs \<Rightarrow> Inr (x # xs)))"

text \<open>
  The body of the loop of \<open>highlightTokens\<close>: what one token adds to \<open>highlighted\<close>.
  \<open>enabled\<close> is the colour library's flag while the loop runs.
\<close>

definition highlightToken ::
  "(InternalTokenType \<Rightarrow> style option) \<Rightarrow> bool \<Rightarrow> Token \<Rightarrow> error + jsstring" where
  "highlightToken defs enabled t =
     (case defs (ttype t) of
        Some colorize \<Rightarrow>
          (case mapColorize (colorize enabled) (split_NEWLINE (tvalue t)) of
             Inl err \<Rightarrow> Inl err
           | Inr xs \<Rightarrow> Inr (join (js ''\<newline>'') xs))
      | None \<Rightarrow> Inr (tvalue t))"

fun highlightLoop ::
  "(InternalTokenType \<Rightarrow> style option) \<Rightarrow> bool \<Rightarrow> jsstring \<Rightarrow> Token list \<Rightarrow> error + jsstring"
where
  "highlightLoop defs enabled highlighted [] = Inr highlighted"
| "highlightLoop defs enabled highlighted (t # ts) =
     (case highlightToken defs enabled t of
        Inl err \<Rightarrow> Inl err
      | Inr x \<Rightarrow> highlightLoop defs enabled (highlighted @ x) ts)"

text \<open>
  \<open>highlightTokens\<close>: the loop consumes the generator, so an exception of the generator
  arrives after the tokens it yielded have been rendered.
\<close>

definition highlightTokens ::
  "collaborators \<Rightarrow> (InternalTokenType \<Rightarrow> style option) \<Rightarrow> bool \<Rightarrow> jsstring \<Rightarrow> error + jsstring"
where
  "highlightTokens c defs enabled text =
     (case tokenize c text of
        (ts, e) \<Rightarrow>
          (case highlightLoop defs enabled [] ts of
             Inl err \<Rightarrow> Inl err
           | Inr highlighted \<Rightarrow>
               (case e of Some err \<Rightarrow> Inl err | None \<Rightarrow> Inr highlighted)))"

section \<open>The entry point\<close>

record Options =
  forceColor :: "bool option"

text \<open>
  \<open>highlight\<close>. The state is \<open>kleur.enabled\<close>; the result is what the call returns or
  throws, and the flag after the call. The \<open>finally\<close> block writes the saved flag back on
  both outcomes of \<open>highlightTokens\<close>.
\<close>

definition highlight ::
  "collaborators \<Rightarrow> jsstring \<Rightarrow> Options \<Rightarrow> bool \<Rightarrow> (error + jsstring) \<times> bool" where
  "highlight c code options enabled =
     (if code = [] then (Inr code, enabled)
      else if forceColor options = Some True then
        (let kleurEnabledBefore = enabled;
             enabled1 = True;
             result = highlightTokens c (getDefs c) enabled1 code;
             enabled2 = kleurEnabledBefore
         in (result, enabled2))
      else if enabled then (highlightTokens c (getDefs c) enabled code, enabled)
      else (Inr code, enabled))"

section \<open>The contract of the tokenizer\<close>

text \<open>
  What the normalizer relies on in the tokens it is given: a template head ends with
  \<open>${\<close>, a template middle starts with \<open>}\<close> and ends with \<open>${\<close>, a template tail starts
  with \<open>}\<close>.
\<close>

definition startsWith :: "jsstring \<Rightarrow> jsstring \<Rightarrow> bool" where
  "startsWith v s = (take (length s) v = s)"

definition endsWith :: "jsstring \<Rightarrow> jsstring \<Rightarrow> bool" where
  "endsWith v s = (length s \<le> length v \<and> drop (length v - length s) v = s)"

definition templateShape :: "JSToken \<Rightarrow> bool" where
  "templateShape token =
     (case jtype token of
        TemplateHead \<Rightarrow> endsWith (jvalue token) (js ''${'')
      | TemplateMiddle \<Rightarrow>
          startsWith (jvalue token) (js ''}'') \<and> endsWith (jvalue token) (js ''${'')
      | TemplateTail \<Rightarrow> startsWith (jvalue token) (js ''}'')
      | _ \<Rightarrow> True)"

section \<open>Line breaks and stripping\<close>

text \<open>
  The text with every match of \<open>NEWLINE\<close> replaced by one line feed, read from left
  to right.
\<close>

fun normalizeNewlines :: "jsstring \<Rightarrow> jsstring" where
  "normalizeNewlines [] = []"
| "normalizeNewlines [u] = (if newline_unit u then [0x0A] else [u])"
| "normalizeNewlines (u # v # us) =
     (if u = 0x0D \<and> v = 0x0A then 0x0A # normalizeNewlines us
      else if newline_unit u then 0x0A # normalizeNewlines (v # us)
      else u # normalizeNewlines (v # us))"

text \<open>
  A text without a line break: none of its code units is a line feed, a carriage
  return, a line separator or a paragraph separator.
\<close>

definition noLineBreak :: "jsstring \<Rightarrow> bool" where
  "noLineBreak p = (\<forall>u\<in>set p. u \<noteq> 0x0A \<and> u \<noteq> 0x0D \<and> u \<noteq> 0x2028 \<and> u \<noteq> 0x2029)"

text \<open>
  What it means for a function \<open>strip\<close> to remove the escape sequences a style inserted:
  at the front of any string, \<open>strip\<close> leaves a plain text as it is (\<open>passes\<close>) and
  gives back the segment a style function was applied to (\<open>stripsStyled\<close>).
  \<open>stripsToken\<close> asks this for what the renderer makes of one token, and
  \<open>strippedText\<close> is the token's text as the renderer writes it, styling apart.
\<close>

definition passes :: "(jsstring \<Rightarrow> jsstring) \<Rightarrow> jsstring \<Rightarrow> bool" where
  "passes strip v = (\<forall>rest. strip (v @ rest) = v @ strip rest)"

definition stripsStyled ::
  "(jsstring \<Rightarrow> jsstring) \<Rightarrow> (jsstring \<Rightarrow> error + jsstring) \<Rightarrow> jsstring \<Rightarrow> bool" where
  "stripsStyled strip colorize seg =
     (\<exists>y. colorize seg = Inr y \<and> (\<forall>rest. strip (y @ rest) = seg @ strip rest))"

definition stripsToken ::
  "(jsstring \<Rightarrow> jsstring) \<Rightarrow> (InternalTokenType \<Rightarrow> style option) \<Rightarrow> Token \<Rightarrow> bool" where
  "stripsToken strip defs t =
     (case defs (ttype t) of
        None \<Rightarrow> passes strip (tvalue t)
      | Some colorize \<Rightarrow>
          \<forall>seg\<in>set (split_NEWLINE (tvalue t)). stripsStyled strip (colorize True) seg)"

definition strippedText :: "(InternalTokenType \<Rightarrow> style option) \<Rightarrow> Token \<Rightarrow> jsstring" where
  "strippedText defs t =
     (case defs (ttype t) of
        None \<Rightarrow> tvalue t
      | Some colorize \<Rightarrow> normalizeNewlines (tvalue t))"

section \<open>A concrete set of collaborators\<close>

text \<open>
  For the evaluations on concrete inputs: the escape sequences the colour library
  inserts around a text that contains none itself (nothing when the flag is off), the
  word lists of the identifier helper, lower-casing of ASCII letters, and a tokenizer
  that is given by the tokens it produces.
\<close>

definition sgr :: "string \<Rightarrow> jsstring" where
  "sgr n = 0x1B # js (''['' @ n @ ''m'')"

definition sgrStyle :: "(string \<times> string) list \<Rightarrow> style" where
  "sgrStyle codes enabled txt =
     Inr (if enabled
          then concat (map (\<lambda>p. sgr (fst p)) codes) @ txt @
               concat (map (\<lambda>p. sgr (snd p)) codes)
          else txt)"

definition sampleKleur :: kleur where
  "sampleKleur =
     \<lparr>cyan = sgrStyle [(''36'', ''39'')],
      yellow = sgrStyle [(''33'', ''39'')],
      magenta = sgrStyle [(''35'', ''39'')],
      green = sgrStyle [(''32'', ''39'')],
      grey = sgrStyle [(''90'', ''39'')],
      white_bgRed_bold = sgrStyle [(''37'', ''39''), (''41'', ''49''), (''1'', ''22'')]\<rparr>"

definition asciiLower :: "jsstring \<Rightarrow> jsstring" where
  "asciiLower v = map (\<lambda>u. if 0x41 \<le> u \<and> u \<le> 0x5A then u + 0x20 else u) v"

definition sampleKeywords :: "string list" where
  "sampleKeywords =
     [''break'', ''case'', ''catch'', ''continue'', ''debugger'', ''default'', ''do'',
      ''else'', ''finally'', ''for'', ''function'', ''if'', ''return'', ''switch'',
      ''throw'', ''try'', ''var'', ''const'', ''while'', ''with'', ''new'', ''this'',
      ''super'', ''class'', ''extends'', ''export'', ''import'', ''null'', ''true'',
      ''false'', ''in'', ''instanceof'', ''typeof'', ''void'', ''delete'']"

definition sampleStrictReserved :: "string list" where
  "sampleStrictReserved =
     [''implements'', ''interface'', ''let'', ''package'', ''private'', ''protected'',
      ''public'', ''static'', ''yield'']"

definition sample :: "JSToken list \<times> error option \<Rightarrow> collaborators" where
  "sample tokens =
     \<lparr>jsTokens = (\<lambda>text. tokens),
      isKeyword = (\<lambda>w. w \<in> set (map js sampleKeywords)),
      isStrictReservedWord =
        (\<lambda>w inModule. (inModule \<and> w = js ''await'') \<or> w = js ''enum'' \<or>
                        w \<in> set (map js sampleStrictReserved)),
      toLowerCase = asciiLower,
      kleur = sampleKleur\<rparr>"

text \<open>
  A sample text, \<open>if \<close> followed by a template literal with two substitutions and by a
  comment of two lines, and the tokens of the tokenizer on it. \<open>0x60\<close> is the backtick.
\<close>

definition sampleText :: jsstring where
  "sampleText =
     js ''if '' @ 0x60 # js ''a${x}b${y}c'' @ 0x60 # js '' /*d'' @ 0x0A # js ''e*/''"

definition sampleTokens :: "JSToken list" where
  "sampleTokens =
     [\<lparr>jtype = IdentifierName, jvalue = js ''if''\<rparr>,
      \<lparr>jtype = WhiteSpace, jvalue = js '' ''\<rparr>,
      \<lparr>jtype = TemplateHead, jvalue = 0x60 # js ''a${''\<rparr>,
      \<lparr>jtype = IdentifierName, jvalue = js ''x''\<rparr>,
      \<lparr>jtype = TemplateMiddle, jvalue = js ''}b${''\<rparr>,
      \<lparr>jtype = IdentifierName, jvalue = js ''y''\<rparr>,
      \<lparr>jtype = TemplateTail, jvalue = js ''}c'' @ [0x60]\<rparr>,
      \<lparr>jtype = WhiteSpace, jvalue = js '' ''\<rparr>,
      \<lparr>jtype = MultiLineComment, jvalue = js ''/*d'' @ 0x0A # js ''e*/''\<rparr>]"

text \<open>
  Stripping the escape sequences: everything from an escape character to the next
  \<open>m\<close> goes. The flag says whether the scan is inside a sequence.
\<close>

fun stripEscapes :: "bool \<Rightarrow> jsstring \<Rightarrow> jsstring" where
  "stripEscapes inside [] = []"
| "stripEscapes False (u # us) =
     (if u = 0x1B then stripEscapes True us else u # stripEscapes False us)"
| "stripEscapes True (u # us) =
     (if u = 0x6D then stripEscapes False us else stripEscapes True us)"

section \<open>Strings, slices and line breaks\<close>

lemma js_simps: "js [] = []" "js (x # xs) = of_char x # js xs"
  by (simp_all add: js_def)

lemma slice_0_m2: "slice_str v 0 (Some (- 2)) = take (length v - 2) v"
  by (simp add: slice_str_def Let_def nat_diff_distrib' max_def)

lemma slice_1_m2: "slice_str v 1 (Some (- 2)) = drop 1 (take (length v - 2) v)"
proof (cases v)
  case Nil
  then show ?thesis by (simp add: slice_str_def Let_def)
next
  case (Cons u us)
  then show ?thesis
    by (simp add: slice_str_def Let_def max_def min_def drop_take nat_diff_distrib'
        numeral_2_eq_2)
qed

lemma slice_1: "slice_str v 1 None = drop 1 v"
  by (cases v) (simp_all add: slice_str_def Let_def min_def)

lemma endsWith_take2: "endsWith v [a, b] \<Longrightarrow> take (length v - 2) v @ [a, b] = v"
proof -
  assume "endsWith v [a, b]"
  then have "drop (length v - 2) v = [a, b]"
    by (simp add: endsWith_def numeral_2_eq_2)
  then show ?thesis
    by (metis append_take_drop_id)
qed

lemma startsWith_drop: "startsWith v [u] \<Longrightarrow> u # drop 1 v = v"
  by (cases v) (auto simp: startsWith_def)

lemma endsWith_drop1:
  assumes s: "startsWith v [u]" and e: "endsWith v [a, b]" and ua: "u \<noteq> a"
  shows "u # drop 1 (take (length v - 2) v) @ [a, b] = v"
proof -
  from e have v: "take (length v - 2) v @ [a, b] = v"
    by (rule endsWith_take2)
  from s obtain w where w: "v = u # w"
    by (cases v) (auto simp: startsWith_def)
  show ?thesis
  proof (cases "length v - 2")
    case 0
    with v w ua show ?thesis by simp
  next
    case (Suc n)
    with v w show ?thesis by simp
  qed
qed

lemma split_NEWLINE_not_Nil: "split_NEWLINE v \<noteq> []"
  by (induction v rule: split_NEWLINE.induct) (auto elim: consHead.elims)

lemma join_Cons: "xs \<noteq> [] \<Longrightarrow> join sep (x # xs) = x @ sep @ join sep xs"
  by (cases xs) auto

lemma join_consHead: "xs \<noteq> [] \<Longrightarrow> join sep (consHead u xs) = u # join sep xs"
proof (cases xs)
  case Nil
  then show ?thesis by simp
next
  case (Cons s ss)
  then show ?thesis by (cases ss) auto
qed

lemma set_consHead:
  "s \<in> set (consHead u xs) \<Longrightarrow> s = [u] \<or> (\<exists>s'. s = u # s' \<and> s' \<in> set xs) \<or> s \<in> set xs"
  by (cases xs) auto

text \<open>No segment of the split holds a code unit that \<open>NEWLINE\<close> matches.\<close>

lemma split_NEWLINE_segments:
  "seg \<in> set (split_NEWLINE v) \<Longrightarrow> u \<in> set seg \<Longrightarrow> \<not> newline_unit u"
proof (induction v arbitrary: seg rule: split_NEWLINE.induct)
  case 1
  then show ?case by simp
next
  case (2 w)
  then show ?case by (auto split: if_splits)
next
  case (3 a b us)
  show ?case
  proof (cases "a = 0x0D \<and> b = 0x0A")
    case True
    with 3 show ?thesis by auto
  next
    case nocrlf: False
    show ?thesis
    proof (cases "newline_unit a")
      case True
      with nocrlf 3 show ?thesis by auto
    next
      case False
      with nocrlf 3(3,4) have "seg \<in> set (consHead a (split_NEWLINE (b # us)))" by auto
      from set_consHead[OF this] False nocrlf 3(3)[OF nocrlf False] 3(5) show ?thesis
        by auto
    qed
  qed
qed

text \<open>
  The split, read from the left: a text without a line break is one segment; before a
  carriage return with a line feed, or before a single line break unit, the text up
  to it is the first segment and the rest is split in the same way.
\<close>

lemma noLineBreak_Cons:
  "noLineBreak (u # p) \<longleftrightarrow>
     u \<noteq> 0x0A \<and> u \<noteq> 0x0D \<and> u \<noteq> 0x2028 \<and> u \<noteq> 0x2029 \<and> noLineBreak p"
  by (simp add: noLineBreak_def)

lemma split_NEWLINE_prefix:
  "noLineBreak p \<Longrightarrow>
   split_NEWLINE (p @ w) = (p @ hd (split_NEWLINE w)) # tl (split_NEWLINE w)"
proof (induction p)
  case Nil
  then show ?case by (simp add: split_NEWLINE_not_Nil)
next
  case (Cons u p)
  then have u: "u \<noteq> 0x0A" "u \<noteq> 0x0D" "u \<noteq> 0x2028" "u \<noteq> 0x2029"
    and IH: "split_NEWLINE (p @ w) = (p @ hd (split_NEWLINE w)) # tl (split_NEWLINE w)"
    by (simp_all add: noLineBreak_Cons)
  show ?case
  proof (cases "p @ w")
    case Nil
    with u show ?thesis by (simp add: newline_unit_def)
  next
    case (Cons x xs)
    with u have "split_NEWLINE ((u # p) @ w) = consHead u (split_NEWLINE (p @ w))"
      by (simp add: newline_unit_def)
    with IH show ?thesis by simp
  qed
qed

lemma split_NEWLINE_plain: "noLineBreak p \<Longrightarrow> split_NEWLINE p = [p]"
  using split_NEWLINE_prefix [of p "[]"] by simp

lemma split_NEWLINE_unit:
  "u = 0x0A \<or> u = 0x2028 \<or> u = 0x2029 \<or> u = 0x0D \<and> take 1 rest \<noteq> [0x0A] \<Longrightarrow>
   split_NEWLINE (u # rest) = [] # split_NEWLINE rest"
  by (cases rest) (auto simp: newline_unit_def)

lemma split_NEWLINE_first:
  assumes "noLineBreak p"
  shows "split_NEWLINE (p @ [0x0D, 0x0A] @ rest) = p # split_NEWLINE rest"
    and "u = 0x0A \<or> u = 0x2028 \<or> u = 0x2029 \<or> u = 0x0D \<and> take 1 rest \<noteq> [0x0A] \<Longrightarrow>
         split_NEWLINE (p @ u # rest) = p # split_NEWLINE rest"
proof -
  show "split_NEWLINE (p @ [0x0D, 0x0A] @ rest) = p # split_NEWLINE rest"
    using split_NEWLINE_prefix [OF assms, of "[0x0D, 0x0A] @ rest"] by simp
  assume "u = 0x0A \<or> u = 0x2028 \<or> u = 0x2029 \<or> u = 0x0D \<and> take 1 rest \<noteq> [0x0A]"
  then have "split_NEWLINE (u # rest) = [] # split_NEWLINE rest"
    by (rule split_NEWLINE_unit)
  with split_NEWLINE_prefix [OF assms, of "u # rest"]
  show "split_NEWLINE (p @ u # rest) = p # split_NEWLINE rest"
    by simp
qed

lemma split_NEWLINE_noLineBreak: "seg \<in> set (split_NEWLINE v) \<Longrightarrow> noLineBreak seg"
  using split_NEWLINE_segments [of seg v] by (auto simp: noLineBreak_def newline_unit_def)

text \<open>Splitting and joining with a line feed replaces every separator by a line feed.\<close>

lemma join_split_NEWLINE: "join [0x0A] (split_NEWLINE v) = normalizeNewlines v"
  by (induction v rule: split_NEWLINE.induct)
     (auto simp: join_consHead join_Cons split_NEWLINE_not_Nil)

lemma normalizeNewlines_id:
  "\<forall>u\<in>set v. u \<noteq> 0x0D \<and> u \<noteq> 0x2028 \<and> u \<noteq> 0x2029 \<Longrightarrow> normalizeNewlines v = v"
  by (induction v rule: normalizeNewlines.induct) (auto simp: newline_unit_def)

section \<open>The classifier: identifier names and brackets\<close>

lemmas sample_simps =
  sample_def sampleKleur_def sgrStyle_def sgr_def js_def asciiLower_def sampleKeywords_def
  sampleStrictReserved_def sometimesKeywords_def

lemma BRACKET_test_iff:
  "BRACKET_test v \<longleftrightarrow> v \<in> {js ''('', js '')'', js ''['', js '']'', js ''{'', js ''}''}"
  by (auto simp: BRACKET_test_def js_def split: list.splits)

lemma getTokenType_returns:
  "jtype token = IdentifierName \<longrightarrow> jvalue token \<noteq> [] \<Longrightarrow>
   \<exists>ty. getTokenType c token = Inr ty"
  by (auto simp: getTokenType_def)

text \<open>
  C4. An identifier name is classified \<open>keyword\<close> exactly when its text is a keyword, a
  strict-mode reserved word (asked with the flag set) or one of \<open>as\<close>, \<open>async\<close>,
  \<open>from\<close>, \<open>get\<close>, \<open>of\<close>, \<open>set\<close>. So \<open>async\<close> always is, and \<open>target\<close>, when the two
  predicates reject it, is not.
\<close>

theorem getTokenType_keyword_iff:
  "(jtype token = IdentifierName \<longrightarrow>
      (getTokenType c token = Inr keyword \<longleftrightarrow>
         isKeyword c (jvalue token) \<or> isStrictReservedWord c (jvalue token) True \<or>
         jvalue token \<in>
           {js ''as'', js ''async'', js ''from'', js ''get'', js ''of'', js ''set''}))
   \<and> getTokenType c \<lparr>jtype = IdentifierName, jvalue = js ''async''\<rparr> = Inr keyword
   \<and> (\<not> isKeyword c (js ''target'') \<and> \<not> isStrictReservedWord c (js ''target'') True \<longrightarrow>
        getTokenType c \<lparr>jtype = IdentifierName, jvalue = js ''target''\<rparr> \<noteq> Inr keyword)"
  by (auto simp: getTokenType_def sometimesKeywords_def js_def)

theorem getTokenType_keyword_iff_witness:
  "getTokenType (sample ([], None)) \<lparr>jtype = IdentifierName, jvalue = js ''const''\<rparr> = Inr keyword
   \<and> getTokenType (sample ([], None)) \<lparr>jtype = IdentifierName, jvalue = js ''async''\<rparr> = Inr keyword
   \<and> \<not> isKeyword (sample ([], None)) (js ''target'')
   \<and> \<not> isStrictReservedWord (sample ([], None)) (js ''target'') True
   \<and> getTokenType (sample ([], None)) \<lparr>jtype = IdentifierName, jvalue = js ''target''\<rparr> \<noteq> Inr keyword"
proof -
  have k: "isKeyword (sample ([], None)) (js ''const'')"
    by (simp add: sample_simps)
  have t: "\<not> isKeyword (sample ([], None)) (js ''target'')"
    "\<not> isStrictReservedWord (sample ([], None)) (js ''target'') True"
    by (simp_all add: sample_simps)
  from k t show ?thesis
    using getTokenType_keyword_iff
      [of "\<lparr>jtype = IdentifierName, jvalue = js ''const''\<rparr>" "sample ([], None)"]
    by simp
qed

text \<open>
  C5. An identifier name with a non-empty text that is not classified \<open>keyword\<close> is
  \<open>capitalized\<close> when its first code unit differs from its own lower-casing, and
  \<open>uncolored\<close> otherwise.
\<close>

theorem getTokenType_identifier_case:
  "jtype token = IdentifierName \<Longrightarrow> jvalue token \<noteq> [] \<Longrightarrow>
   getTokenType c token \<noteq> Inr keyword \<Longrightarrow>
   getTokenType c token =
     Inr (if [hd (jvalue token)] \<noteq> toLowerCase c [hd (jvalue token)] then capitalized
          else uncolored)"
  by (auto simp: getTokenType_def)

theorem getTokenType_identifier_case_witness:
  "getTokenType (sample ([], None)) \<lparr>jtype = IdentifierName, jvalue = js ''Foo''\<rparr> = Inr capitalized
   \<and> getTokenType (sample ([], None)) \<lparr>jtype = IdentifierName, jvalue = js ''foo''\<rparr> = Inr uncolored"
proof -
  have n: "getTokenType (sample ([], None)) \<lparr>jtype = IdentifierName, jvalue = js ''Foo''\<rparr> \<noteq> Inr keyword"
    "getTokenType (sample ([], None)) \<lparr>jtype = IdentifierName, jvalue = js ''foo''\<rparr> \<noteq> Inr keyword"
    by (simp_all add: getTokenType_def sample_simps)
  have l: "toLowerCase (sample ([], None)) (js ''F'') = js ''f''"
    "toLowerCase (sample ([], None)) (js ''f'') = js ''f''"
    by (simp_all add: sample_simps)
  have "getTokenType (sample ([], None)) \<lparr>jtype = IdentifierName, jvalue = js ''Foo''\<rparr> = Inr capitalized"
    using getTokenType_identifier_case
      [of "\<lparr>jtype = IdentifierName, jvalue = js ''Foo''\<rparr>" "sample ([], None)", OF _ _ n(1)] l
    by (simp add: js_def)
  moreover
  have "getTokenType (sample ([], None)) \<lparr>jtype = IdentifierName, jvalue = js ''foo''\<rparr> = Inr uncolored"
    using getTokenType_identifier_case
      [of "\<lparr>jtype = IdentifierName, jvalue = js ''foo''\<rparr>" "sample ([], None)", OF _ _ n(2)] l
    by (simp add: js_def)
  ultimately show ?thesis by simp
qed

text \<open>
  C6. A punctuator whose text is one of the six brackets is \<open>uncolored\<close>; every other
  punctuator, and every JSX punctuator whatever its text, is \<open>punctuator\<close>.
\<close>

theorem getTokenType_brackets:
  "(jtype token = Punctuator \<and>
    jvalue token \<in> {js ''('', js '')'', js ''['', js '']'', js ''{'', js ''}''} \<longrightarrow>
      getTokenType c token = Inr uncolored)
   \<and> (jtype token = Punctuator \<and>
       jvalue token \<notin> {js ''('', js '')'', js ''['', js '']'', js ''{'', js ''}''} \<longrightarrow>
      getTokenType c token = Inr punctuator)
   \<and> (jtype token = JSXPunctuator \<longrightarrow> getTokenType c token = Inr punctuator)"
  by (simp add: getTokenType_def BRACKET_test_iff)

theorem getTokenType_brackets_witness:
  "getTokenType (sample ([], None)) \<lparr>jtype = Punctuator, jvalue = js ''[''\<rparr> = Inr uncolored
   \<and> getTokenType (sample ([], None)) \<lparr>jtype = Punctuator, jvalue = js ''=>''\<rparr> = Inr punctuator
   \<and> getTokenType (sample ([], None)) \<lparr>jtype = JSXPunctuator, jvalue = js ''{''\<rparr> = Inr punctuator"
  using getTokenType_brackets [of "\<lparr>jtype = Punctuator, jvalue = js ''[''\<rparr>" "sample ([], None)"]
    getTokenType_brackets [of "\<lparr>jtype = Punctuator, jvalue = js ''=>''\<rparr>" "sample ([], None)"]
    getTokenType_brackets [of "\<lparr>jtype = JSXPunctuator, jvalue = js ''{''\<rparr>" "sample ([], None)"]
  by (simp add: js_def)

section \<open>The entry point\<close>

text \<open>
  C9. The empty string comes back as it is whatever the options, the flag and the
  collaborators are; and so does any text when the flag is off and \<open>forceColor\<close> is
  absent or false. Neither case reaches a collaborator, and the flag keeps its value.
\<close>

theorem highlight_identity:
  "highlight c [] options enabled = (Inr [], enabled)
   \<and> (forceColor options \<noteq> Some True \<longrightarrow>
        highlight c text options False = (Inr text, False))"
  by (simp add: highlight_def)

theorem highlight_identity_witness:
  "highlight (sample ([], Some (Thrown ''tokenizer''))) (js ''a = 1'') \<lparr>forceColor = None\<rparr> False
     = (Inr (js ''a = 1''), False)
   \<and> highlight (sample ([], Some (Thrown ''tokenizer''))) (js ''a = 1'')
       \<lparr>forceColor = Some False\<rparr> False
     = (Inr (js ''a = 1''), False)"
  using highlight_identity
      [of "sample ([], Some (Thrown ''tokenizer''))" "\<lparr>forceColor = None\<rparr>" False "js ''a = 1''"]
    highlight_identity
      [of "sample ([], Some (Thrown ''tokenizer''))" "\<lparr>forceColor = Some False\<rparr>" False
        "js ''a = 1''"]
  by simp

text \<open>
  C10. With \<open>forceColor\<close> set, what the call returns or throws is the same whatever the
  flag was before the call.
\<close>

theorem highlight_forceColor_independent:
  "fst (highlight c text \<lparr>forceColor = Some True\<rparr> enabled1) =
   fst (highlight c text \<lparr>forceColor = Some True\<rparr> enabled2)"
  by (simp add: highlight_def Let_def)

text \<open>
  C2. With \<open>forceColor\<close> set, the flag after the call is the flag before it, whether
  the renderer returned or threw; the renderer ran with the flag on; and what it threw
  is what the call throws.
\<close>

theorem highlight_forceColor_restores:
  "snd (highlight c code \<lparr>forceColor = Some True\<rparr> enabled) = enabled
   \<and> (code \<noteq> [] \<longrightarrow>
        fst (highlight c code \<lparr>forceColor = Some True\<rparr> enabled) =
          highlightTokens c (getDefs c) True code)
   \<and> (code \<noteq> [] \<and> highlightTokens c (getDefs c) True code = Inl err \<longrightarrow>
        highlight c code \<lparr>forceColor = Some True\<rparr> enabled = (Inl err, enabled))"
  by (simp add: highlight_def Let_def)

theorem highlight_forceColor_restores_witness:
  "highlight (sample ([\<lparr>jtype = NumericLiteral, jvalue = js ''1''\<rparr>], None)) (js ''1'')
       \<lparr>forceColor = Some True\<rparr> False
     = (Inr (sgr ''35'' @ js ''1'' @ sgr ''39''), False)
   \<and> highlight (sample ([\<lparr>jtype = NumericLiteral, jvalue = js ''1''\<rparr>], Some (Thrown ''tokenizer'')))
       (js ''1;'') \<lparr>forceColor = Some True\<rparr> False
     = (Inl (Thrown ''tokenizer''), False)
   \<and> highlight (sample ([\<lparr>jtype = IdentifierName, jvalue = []\<rparr>], None)) (js ''1'')
       \<lparr>forceColor = Some True\<rparr> False
     = (Inl TypeError, False)"
proof -
  have r: "highlightTokens (sample ([\<lparr>jtype = NumericLiteral, jvalue = js ''1''\<rparr>], None))
        (getDefs (sample ([\<lparr>jtype = NumericLiteral, jvalue = js ''1''\<rparr>], None))) True (js ''1'')
      = Inr (sgr ''35'' @ js ''1'' @ sgr ''39'')"
    by (simp add: highlightTokens_def tokenize_def getTokenType_def highlightToken_def
        newline_unit_def sample_simps)
  have t: "highlightTokens
        (sample ([\<lparr>jtype = NumericLiteral, jvalue = js ''1''\<rparr>], Some (Thrown ''tokenizer'')))
        (getDefs (sample ([\<lparr>jtype = NumericLiteral, jvalue = js ''1''\<rparr>], Some (Thrown ''tokenizer''))))
        True (js ''1;'')
      = Inl (Thrown ''tokenizer'')"
    by (simp add: highlightTokens_def tokenize_def getTokenType_def highlightToken_def
        newline_unit_def sample_simps)
  have e: "highlightTokens (sample ([\<lparr>jtype = IdentifierName, jvalue = []\<rparr>], None))
        (getDefs (sample ([\<lparr>jtype = IdentifierName, jvalue = []\<rparr>], None))) True (js ''1'')
      = Inl TypeError"
    by (simp add: highlightTokens_def tokenize_def getTokenType_def sample_simps)
  have n: "js ''1'' \<noteq> []" "js ''1;'' \<noteq> []"
    by (simp_all add: js_def)
  show ?thesis
    using highlight_forceColor_restores
        [of "sample ([\<lparr>jtype = NumericLiteral, jvalue = js ''1''\<rparr>], None)" "js ''1''" False]
      highlight_forceColor_restores
        [of "sample ([\<lparr>jtype = NumericLiteral, jvalue = js ''1''\<rparr>], Some (Thrown ''tokenizer''))"
          "js ''1;''" False "Thrown ''tokenizer''"]
      highlight_forceColor_restores
        [of "sample ([\<lparr>jtype = IdentifierName, jvalue = []\<rparr>], None)" "js ''1''" False TypeError]
      r t e n
    by (simp add: prod_eq_iff)
qed

section \<open>The normalizer\<close>

lemma tokenizeLoop_Cons:
  assumes "jtype token = IdentifierName \<longrightarrow> jvalue token \<noteq> []"
  shows "tokenizeLoop c (token # tokens) e =
     yield (yieldsOf c token) (tokenizeLoop c tokens e)"
proof -
  from getTokenType_returns [OF assms] obtain ty where "getTokenType c token = Inr ty"
    by blast
  then show ?thesis
    by (cases "tokenizeLoop c tokens e"; cases "jtype token") (simp_all add: yieldsOf_def)
qed

lemma tokenizeLoop_single_text:
  assumes shape: "templateShape token"
    and ident: "jtype token = IdentifierName \<longrightarrow> jvalue token \<noteq> []"
  shows "concat (map tvalue (yieldsOf c token)) = jvalue token"
proof -
  from getTokenType_returns [OF ident] obtain ty where ty: "getTokenType c token = Inr ty"
    by blast
  show ?thesis
  proof (cases "jtype token")
    case TemplateHead
    with shape
    have "take (length (jvalue token) - 2) (jvalue token) @ js ''${'' = jvalue token"
      using endsWith_take2 [of "jvalue token"] by (simp add: templateShape_def js_simps)
    with TemplateHead show ?thesis by (simp add: yieldsOf_def slice_0_m2)
  next
    case TemplateMiddle
    with shape
    have "js ''}'' @ drop 1 (take (length (jvalue token) - 2) (jvalue token)) @ js ''${'' =
        jvalue token"
      using endsWith_drop1 [of "jvalue token"] by (simp add: templateShape_def js_simps)
    with TemplateMiddle show ?thesis by (simp add: yieldsOf_def slice_1_m2)
  next
    case TemplateTail
    with shape have "js ''}'' @ drop 1 (jvalue token) = jvalue token"
      using startsWith_drop [of "jvalue token"] by (simp add: templateShape_def js_simps)
    with TemplateTail show ?thesis by (simp add: yieldsOf_def slice_1)
  qed (use ty in \<open>simp_all add: yieldsOf_def\<close>)
qed

lemma tokenizeLoop_texts:
  assumes "\<forall>token\<in>set tokens. templateShape token"
    and "\<forall>token\<in>set tokens. jtype token = IdentifierName \<longrightarrow> jvalue token \<noteq> []"
  shows "snd (tokenizeLoop c tokens e) = e
     \<and> fst (tokenizeLoop c tokens e) = concat (map (yieldsOf c) tokens)
     \<and> concat (map tvalue (fst (tokenizeLoop c tokens e))) = concat (map jvalue tokens)"
  using assms
proof (induction tokens)
  case Nil
  then show ?case by simp
next
  case (Cons token tokens)
  from Cons.prems have shape: "templateShape token"
    and ident: "jtype token = IdentifierName \<longrightarrow> jvalue token \<noteq> []"
    and shapes: "\<forall>token\<in>set tokens. templateShape token"
    and idents: "\<forall>token\<in>set tokens. jtype token = IdentifierName \<longrightarrow> jvalue token \<noteq> []"
    by simp_all
  obtain ts e' where loop: "tokenizeLoop c tokens e = (ts, e')"
    by (cases "tokenizeLoop c tokens e")
  note IH = Cons.IH [OF shapes idents]
  from IH have "snd (tokenizeLoop c tokens e) = e" by blast
  with loop have e': "e' = e" by simp
  from IH have "fst (tokenizeLoop c tokens e) = concat (map (yieldsOf c) tokens)" by blast
  with loop have ys: "ts = concat (map (yieldsOf c) tokens)" by simp
  from IH have "concat (map tvalue (fst (tokenizeLoop c tokens e))) =
      concat (map jvalue tokens)" by blast
  with loop have texts: "concat (map tvalue ts) = concat (map jvalue tokens)" by simp
  have step: "tokenizeLoop c (token # tokens) e = (yieldsOf c token @ ts, e')"
    using tokenizeLoop_Cons [OF ident, of c tokens e] loop by simp
  have "snd (tokenizeLoop c (token # tokens) e) = e"
    unfolding step using e' by simp
  moreover
  have "fst (tokenizeLoop c (token # tokens) e) = concat (map (yieldsOf c) (token # tokens))"
    unfolding step using ys by simp
  moreover
  have "concat (map tvalue (fst (tokenizeLoop c (token # tokens) e))) =
      concat (map jvalue (token # tokens))"
    unfolding step using texts tokenizeLoop_single_text [OF shape ident, of c] by simp
  ultimately show ?case by blast
qed

lemma tokenize_texts:
  assumes "jsTokens c text = (tokens, e)"
    and "\<forall>token\<in>set tokens. templateShape token"
    and "\<forall>token\<in>set tokens. jtype token = IdentifierName \<longrightarrow> jvalue token \<noteq> []"
  shows "snd (tokenize c text) = e"
    and "fst (tokenize c text) = concat (map (yieldsOf c) tokens)"
    and "concat (map tvalue (fst (tokenize c text))) = concat (map jvalue tokens)"
proof -
  from assms(1) have eq: "tokenize c text = tokenizeLoop c tokens e"
    by (simp add: tokenize_def)
  note loop = tokenizeLoop_texts [OF assms(2,3), of c e]
  from loop show "snd (tokenize c text) = e"
    unfolding eq by blast
  from loop show "fst (tokenize c text) = concat (map (yieldsOf c) tokens)"
    unfolding eq by blast
  from loop show "concat (map tvalue (fst (tokenize c text))) = concat (map jvalue tokens)"
    unfolding eq by blast
qed

text \<open>
  C7. In the loop of the normalizer, a template head yields its text without the last
  two code units as a \<open>string\<close>, then the punctuator \<open>${\<close>; a template middle yields
  the punctuator \<open>}\<close>, its text without the first and the last two code units as a
  \<open>string\<close>, then the punctuator \<open>${\<close>; a template tail yields the punctuator \<open>}\<close>,
  then its text without the first code unit as a \<open>string\<close>. A token of any other kind
  yields one token: the category the classifier returns for it, and its text
  unchanged. The tokens of the tokenizer are never empty, which is what the classifier
  needs of an identifier name to return.
\<close>

theorem tokenizeLoop_yields:
  "(jtype token = TemplateHead \<longrightarrow>
      tokenizeLoop c (token # tokens) e =
        yield [\<lparr>ttype = string, tvalue = take (length (jvalue token) - 2) (jvalue token)\<rparr>,
               \<lparr>ttype = punctuator, tvalue = js ''${''\<rparr>]
          (tokenizeLoop c tokens e))
   \<and> (jtype token = TemplateMiddle \<longrightarrow>
      tokenizeLoop c (token # tokens) e =
        yield [\<lparr>ttype = punctuator, tvalue = js ''}''\<rparr>,
               \<lparr>ttype = string,
                tvalue = drop 1 (take (length (jvalue token) - 2) (jvalue token))\<rparr>,
               \<lparr>ttype = punctuator, tvalue = js ''${''\<rparr>]
          (tokenizeLoop c tokens e))
   \<and> (jtype token = TemplateTail \<longrightarrow>
      tokenizeLoop c (token # tokens) e =
        yield [\<lparr>ttype = punctuator, tvalue = js ''}''\<rparr>,
               \<lparr>ttype = string, tvalue = drop 1 (jvalue token)\<rparr>]
          (tokenizeLoop c tokens e))
   \<and> (jtype token \<notin> {TemplateHead, TemplateMiddle, TemplateTail} \<and>
       (jtype token = IdentifierName \<longrightarrow> jvalue token \<noteq> []) \<longrightarrow>
      (\<exists>ty. getTokenType c token = Inr ty \<and>
            tokenizeLoop c (token # tokens) e =
              yield [\<lparr>ttype = ty, tvalue = jvalue token\<rparr>] (tokenizeLoop c tokens e)))"
proof (intro conjI impI)
  assume "jtype token \<notin> {TemplateHead, TemplateMiddle, TemplateTail} \<and>
      (jtype token = IdentifierName \<longrightarrow> jvalue token \<noteq> [])"
  then have other: "jtype token \<notin> {TemplateHead, TemplateMiddle, TemplateTail}"
    and ident: "jtype token = IdentifierName \<longrightarrow> jvalue token \<noteq> []"
    by simp_all
  from getTokenType_returns [OF ident] obtain ty where ty: "getTokenType c token = Inr ty"
    by blast
  with other have "tokenizeLoop c (token # tokens) e =
      yield [\<lparr>ttype = ty, tvalue = jvalue token\<rparr>] (tokenizeLoop c tokens e)"
    by (cases "jtype token") (simp_all del: yield.simps)
  with ty show "\<exists>ty. getTokenType c token = Inr ty \<and>
      tokenizeLoop c (token # tokens) e =
        yield [\<lparr>ttype = ty, tvalue = jvalue token\<rparr>] (tokenizeLoop c tokens e)"
    by blast
qed (simp_all add: slice_0_m2 slice_1_m2 slice_1 del: yield.simps)

theorem tokenizeLoop_yields_witness:
  "tokenizeLoop (sample ([], None)) [\<lparr>jtype = TemplateHead, jvalue = 0x60 # js ''a${''\<rparr>] None
     = ([\<lparr>ttype = string, tvalue = 0x60 # js ''a''\<rparr>,
         \<lparr>ttype = punctuator, tvalue = js ''${''\<rparr>], None)
   \<and> tokenizeLoop (sample ([], None)) [\<lparr>jtype = TemplateMiddle, jvalue = js ''}b${''\<rparr>] None
     = ([\<lparr>ttype = punctuator, tvalue = js ''}''\<rparr>, \<lparr>ttype = string, tvalue = js ''b''\<rparr>,
         \<lparr>ttype = punctuator, tvalue = js ''${''\<rparr>], None)
   \<and> tokenizeLoop (sample ([], None)) [\<lparr>jtype = TemplateTail, jvalue = js ''}c'' @ [0x60]\<rparr>] None
     = ([\<lparr>ttype = punctuator, tvalue = js ''}''\<rparr>,
         \<lparr>ttype = string, tvalue = js ''c'' @ [0x60]\<rparr>], None)
   \<and> tokenizeLoop (sample ([], None)) [\<lparr>jtype = NumericLiteral, jvalue = js ''1''\<rparr>] None
     = ([\<lparr>ttype = number, tvalue = js ''1''\<rparr>], None)"
proof -
  have n: "getTokenType (sample ([], None)) \<lparr>jtype = NumericLiteral, jvalue = js ''1''\<rparr> = Inr number"
    by (simp add: getTokenType_def js_def)
  show ?thesis
    using tokenizeLoop_yields
        [of "\<lparr>jtype = TemplateHead, jvalue = 0x60 # js ''a${''\<rparr>" "sample ([], None)" "[]" None]
      tokenizeLoop_yields
        [of "\<lparr>jtype = TemplateMiddle, jvalue = js ''}b${''\<rparr>" "sample ([], None)" "[]" None]
      tokenizeLoop_yields
        [of "\<lparr>jtype = TemplateTail, jvalue = js ''}c'' @ [0x60]\<rparr>" "sample ([], None)" "[]" None]
      tokenizeLoop_yields
        [of "\<lparr>jtype = NumericLiteral, jvalue = js ''1''\<rparr>" "sample ([], None)" "[]" None]
      n
    by (simp add: js_def)
qed


text \<open>The sample tokens keep the contract, and the normalizer on them.\<close>

lemma sample_jsTokens: "jsTokens (sample tokens) text = tokens"
  by (simp add: sample_def)

lemma sampleTokens_concat: "concat (map jvalue sampleTokens) = sampleText"
  by (simp add: sampleTokens_def sampleText_def js_def)

lemma sampleTokens_shape: "\<forall>token\<in>set sampleTokens. templateShape token"
  by (simp add: sampleTokens_def templateShape_def startsWith_def endsWith_def js_def)

lemma sampleTokens_idents:
  "\<forall>token\<in>set sampleTokens. jtype token = IdentifierName \<longrightarrow> jvalue token \<noteq> []"
  by (simp add: sampleTokens_def js_def)

lemma sample_tokenize:
  "tokenize (sample (sampleTokens, None)) sampleText =
     ([\<lparr>ttype = keyword, tvalue = js ''if''\<rparr>,
       \<lparr>ttype = uncolored, tvalue = js '' ''\<rparr>,
       \<lparr>ttype = string, tvalue = 0x60 # js ''a''\<rparr>,
       \<lparr>ttype = punctuator, tvalue = js ''${''\<rparr>,
       \<lparr>ttype = uncolored, tvalue = js ''x''\<rparr>,
       \<lparr>ttype = punctuator, tvalue = js ''}''\<rparr>,
       \<lparr>ttype = string, tvalue = js ''b''\<rparr>,
       \<lparr>ttype = punctuator, tvalue = js ''${''\<rparr>,
       \<lparr>ttype = uncolored, tvalue = js ''y''\<rparr>,
       \<lparr>ttype = punctuator, tvalue = js ''}''\<rparr>,
       \<lparr>ttype = string, tvalue = js ''c'' @ [0x60]\<rparr>,
       \<lparr>ttype = uncolored, tvalue = js '' ''\<rparr>,
       \<lparr>ttype = comment, tvalue = js ''/*d'' @ 0x0A # js ''e*/''\<rparr>], None)"
  by (simp add: tokenize_def sampleTokens_def getTokenType_def slice_0_m2 slice_1_m2 slice_1
      sample_simps)


section \<open>The renderer\<close>

lemma mapColorize_Inr:
  "\<forall>s\<in>set segs. colorize s = Inr (styled s) \<Longrightarrow>
   mapColorize colorize segs = Inr (map styled segs)"
  by (induction segs) auto

text \<open>
  C8. The segments a text is split into are the texts between its line breaks, read
  from the left: a text without a line feed, carriage return, line separator or
  paragraph separator is one segment; in front of a carriage return followed by a line
  feed (one boundary), of a line feed, a line separator or a paragraph separator, or of
  a carriage return that no line feed follows, the text without a line break up to
  there is the first segment and the rest gives the others. For a token whose category
  has a style, no segment of its text holds a line break, and when the style function
  returns on every segment, what the token adds to the output is the styled segments
  with a single line feed, unstyled, between each two.
\<close>

theorem highlightToken_per_line:
  assumes "defs (ttype t) = Some colorize"
  shows "(\<forall>p. noLineBreak p \<longrightarrow> split_NEWLINE p = [p])
     \<and> (\<forall>p rest. noLineBreak p \<longrightarrow>
           split_NEWLINE (p @ [0x0D, 0x0A] @ rest) = p # split_NEWLINE rest)
     \<and> (\<forall>p u rest.
           noLineBreak p \<and>
           (u = 0x0A \<or> u = 0x2028 \<or> u = 0x2029 \<or> u = 0x0D \<and> take 1 rest \<noteq> [0x0A]) \<longrightarrow>
           split_NEWLINE (p @ u # rest) = p # split_NEWLINE rest)
     \<and> (\<forall>seg\<in>set (split_NEWLINE (tvalue t)).
           \<forall>u\<in>set seg. u \<noteq> 0x0A \<and> u \<noteq> 0x0D \<and> u \<noteq> 0x2028 \<and> u \<noteq> 0x2029)
     \<and> ((\<forall>seg\<in>set (split_NEWLINE (tvalue t)). colorize enabled seg = Inr (styled seg)) \<longrightarrow>
          highlightToken defs enabled t =
            Inr (join (js ''\<newline>'') (map styled (split_NEWLINE (tvalue t)))))"
proof (intro conjI impI allI)
  fix p
  assume "noLineBreak p"
  then show "split_NEWLINE p = [p]"
    by (rule split_NEWLINE_plain)
next
  fix p rest :: jsstring
  assume "noLineBreak p"
  then show "split_NEWLINE (p @ [0x0D, 0x0A] @ rest) = p # split_NEWLINE rest"
    by (rule split_NEWLINE_first(1))
next
  fix p rest :: jsstring and u :: "16 word"
  assume "noLineBreak p \<and>
      (u = 0x0A \<or> u = 0x2028 \<or> u = 0x2029 \<or> u = 0x0D \<and> take 1 rest \<noteq> [0x0A])"
  then show "split_NEWLINE (p @ u # rest) = p # split_NEWLINE rest"
    using split_NEWLINE_first(2) by blast
next
  show "\<forall>seg\<in>set (split_NEWLINE (tvalue t)).
      \<forall>u\<in>set seg. u \<noteq> 0x0A \<and> u \<noteq> 0x0D \<and> u \<noteq> 0x2028 \<and> u \<noteq> 0x2029"
    using split_NEWLINE_noLineBreak [of _ "tvalue t"] by (simp add: noLineBreak_def)
next
  assume "\<forall>seg\<in>set (split_NEWLINE (tvalue t)). colorize enabled seg = Inr (styled seg)"
  then have "mapColorize (colorize enabled) (split_NEWLINE (tvalue t)) =
      Inr (map styled (split_NEWLINE (tvalue t)))"
    by (rule mapColorize_Inr)
  with assms show "highlightToken defs enabled t =
      Inr (join (js ''\<newline>'') (map styled (split_NEWLINE (tvalue t))))"
    by (simp add: highlightToken_def)
qed

text \<open>
  A comment of two lines, once with a line feed and once with a carriage return and a
  line feed between them: in both the two lines are styled apart, with one unstyled
  line feed between. A carriage return, a line separator and a paragraph separator
  alone end a segment each.
\<close>

theorem highlightToken_per_line_witness:
  "split_NEWLINE (js ''/* a\<newline>b */'') = [js ''/* a'', js ''b */'']
   \<and> highlightToken (getDefs (sample ([], None))) True
       \<lparr>ttype = comment, tvalue = js ''/* a\<newline>b */''\<rparr>
     = Inr (sgr ''90'' @ js ''/* a'' @ sgr ''39'' @ js ''\<newline>'' @
            sgr ''90'' @ js ''b */'' @ sgr ''39'')
   \<and> split_NEWLINE (js ''/* a'' @ [0x0D, 0x0A] @ js ''b */'') = [js ''/* a'', js ''b */'']
   \<and> highlightToken (getDefs (sample ([], None))) True
       \<lparr>ttype = comment, tvalue = js ''/* a'' @ [0x0D, 0x0A] @ js ''b */''\<rparr>
     = Inr (sgr ''90'' @ js ''/* a'' @ sgr ''39'' @ js ''\<newline>'' @
            sgr ''90'' @ js ''b */'' @ sgr ''39'')
   \<and> split_NEWLINE (js ''a'' @ 0x0D # js ''b'' @ 0x2028 # js ''c'' @ 0x2029 # js ''d'')
     = [js ''a'', js ''b'', js ''c'', js ''d'']"
proof -
  let ?c = "sample ([], None)"
  let ?grey = "sgrStyle [(''90'', ''39'')]"
  let ?styled = "\<lambda>seg. sgr ''90'' @ seg @ sgr ''39''"
  let ?lf = "\<lparr>ttype = comment, tvalue = js ''/* a'' @ 0x0A # js ''b */''\<rparr>"
  let ?crlf = "\<lparr>ttype = comment, tvalue = js ''/* a'' @ [0x0D, 0x0A] @ js ''b */''\<rparr>"
  have e: "js ''/* a\<newline>b */'' = js ''/* a'' @ 0x0A # js ''b */''"
    by (simp add: js_def)
  have d: "getDefs ?c (ttype ?lf) = Some ?grey" "getDefs ?c (ttype ?crlf) = Some ?grey"
    by (simp_all add: sample_def sampleKleur_def)
  have n: "noLineBreak (js ''/* a'')" "noLineBreak (js ''b */'')"
    "noLineBreak (js ''a'')" "noLineBreak (js ''b'')" "noLineBreak (js ''c'')"
    "noLineBreak (js ''d'')"
    by (simp_all add: noLineBreak_def js_def)
  note lf = highlightToken_per_line
    [where defs = "getDefs ?c" and t = ?lf and colorize = ?grey and enabled = True
       and styled = ?styled, OF d(1)]
  note crlf = highlightToken_per_line
    [where defs = "getDefs ?c" and t = ?crlf and colorize = ?grey and enabled = True
       and styled = ?styled, OF d(2)]
  note plain = lf [THEN conjunct1, rule_format]
  note pair = crlf [THEN conjunct2, THEN conjunct1, rule_format]
  note unit = lf [THEN conjunct2, THEN conjunct2, THEN conjunct1, rule_format, OF conjI]
  note frag_lf = lf [THEN conjunct2, THEN conjunct2, THEN conjunct2, THEN conjunct2, rule_format]
  note frag_crlf =
    crlf [THEN conjunct2, THEN conjunct2, THEN conjunct2, THEN conjunct2, rule_format]
  have s1: "split_NEWLINE (js ''/* a'' @ 0x0A # js ''b */'') = [js ''/* a'', js ''b */'']"
    using unit [OF n(1), of "0x0A" "js ''b */''"] plain [OF n(2)] by simp
  have s2: "split_NEWLINE (js ''/* a'' @ [0x0D, 0x0A] @ js ''b */'') = [js ''/* a'', js ''b */'']"
    using pair [OF n(1), of "js ''b */''"] plain [OF n(2)] by simp
  have t: "take 1 (js ''b'' @ 0x2028 # js ''c'' @ 0x2029 # js ''d'') \<noteq> [0x0A]"
    by (simp add: js_def)
  have "split_NEWLINE (js ''c'' @ 0x2029 # js ''d'') = [js ''c'', js ''d'']"
    using unit [OF n(5), of "0x2029" "js ''d''"] plain [OF n(6)] by simp
  then have "split_NEWLINE (js ''b'' @ 0x2028 # js ''c'' @ 0x2029 # js ''d'') =
      [js ''b'', js ''c'', js ''d'']"
    using unit [OF n(4), of "0x2028" "js ''c'' @ 0x2029 # js ''d''"] by simp
  then have s3: "split_NEWLINE (js ''a'' @ 0x0D # js ''b'' @ 0x2028 # js ''c'' @ 0x2029 # js ''d'')
      = [js ''a'', js ''b'', js ''c'', js ''d'']"
    using unit [OF n(3), of "0x0D" "js ''b'' @ 0x2028 # js ''c'' @ 0x2029 # js ''d''"] t
    by simp
  have g: "?grey True seg = Inr (?styled seg)" for seg
    by (simp add: sgrStyle_def)
  have h1: "highlightToken (getDefs ?c) True ?lf =
      Inr (sgr ''90'' @ js ''/* a'' @ sgr ''39'' @ js ''\<newline>'' @
           sgr ''90'' @ js ''b */'' @ sgr ''39'')"
    using frag_lf g s1 by simp
  have h2: "highlightToken (getDefs ?c) True ?crlf =
      Inr (sgr ''90'' @ js ''/* a'' @ sgr ''39'' @ js ''\<newline>'' @
           sgr ''90'' @ js ''b */'' @ sgr ''39'')"
    using frag_crlf g s2 by simp
  show ?thesis
    unfolding e using s1 h1 s2 h2 s3 by (intro conjI)
qed

section \<open>Rendering and the source text\<close>

lemma mapColorize_strip:
  assumes lf: "passes strip [0x0A]"
  shows "\<forall>seg\<in>set segs. stripsStyled strip colorize seg \<Longrightarrow>
     \<exists>ys. mapColorize colorize segs = Inr ys \<and> length ys = length segs \<and>
          (\<forall>rest. strip (join [0x0A] ys @ rest) = join [0x0A] segs @ strip rest)"
proof (induction segs)
  case Nil
  then show ?case by simp
next
  case (Cons seg segs)
  then obtain y where y: "colorize seg = Inr y" "\<And>rest. strip (y @ rest) = seg @ strip rest"
    by (auto simp: stripsStyled_def)
  from Cons obtain ys where ys: "mapColorize colorize segs = Inr ys" "length ys = length segs"
      "\<And>rest. strip (join [0x0A] ys @ rest) = join [0x0A] segs @ strip rest"
    by auto
  from lf have lf': "\<And>rest. strip (0x0A # rest) = 0x0A # strip rest"
    by (simp add: passes_def)
  have "\<forall>rest. strip (join [0x0A] (y # ys) @ rest) = join [0x0A] (seg # segs) @ strip rest"
  proof (cases segs)
    case Nil
    with ys y show ?thesis by simp
  next
    case (Cons s ss)
    with ys have "ys \<noteq> []" "segs \<noteq> []" by auto
    then show ?thesis
      using y(2) ys(3) lf' by (simp add: join_Cons)
  qed
  with y ys show ?case by simp
qed

lemma highlightToken_strip:
  assumes lf: "passes strip [0x0A]" and t: "stripsToken strip defs t"
  shows "\<exists>x. highlightToken defs True t = Inr x \<and>
             (\<forall>rest. strip (x @ rest) = strippedText defs t @ strip rest)"
proof (cases "defs (ttype t)")
  case None
  with t show ?thesis
    by (simp add: highlightToken_def stripsToken_def strippedText_def passes_def)
next
  case (Some colorize)
  with t have "\<forall>seg\<in>set (split_NEWLINE (tvalue t)). stripsStyled strip (colorize True) seg"
    by (simp add: stripsToken_def)
  from mapColorize_strip [OF lf this] obtain ys
    where ys: "mapColorize (colorize True) (split_NEWLINE (tvalue t)) = Inr ys"
      "\<And>rest. strip (join [0x0A] ys @ rest) =
         join [0x0A] (split_NEWLINE (tvalue t)) @ strip rest"
    by blast
  with Some show ?thesis
    by (simp add: highlightToken_def strippedText_def join_split_NEWLINE js_simps)
qed

lemma highlightLoop_strip:
  assumes lf: "passes strip [0x0A]"
  shows "\<forall>t\<in>set ts. stripsToken strip defs t \<Longrightarrow>
     \<exists>r. highlightLoop defs True highlighted ts = Inr (highlighted @ r) \<and>
         (\<forall>rest. strip (r @ rest) = concat (map (strippedText defs) ts) @ strip rest)"
proof (induction ts arbitrary: highlighted)
  case Nil
  then show ?case by simp
next
  case (Cons t ts)
  then have "stripsToken strip defs t" by simp
  from highlightToken_strip [OF lf this] obtain x
    where x: "highlightToken defs True t = Inr x"
      "\<And>rest. strip (x @ rest) = strippedText defs t @ strip rest"
    by blast
  from Cons obtain r
    where r: "highlightLoop defs True (highlighted @ x) ts = Inr ((highlighted @ x) @ r)"
      "\<And>rest. strip (r @ rest) = concat (map (strippedText defs) ts) @ strip rest"
    by (metis list.set_intros(2))
  from x r have "highlightLoop defs True highlighted (t # ts) = Inr (highlighted @ (x @ r)) \<and>
      (\<forall>rest. strip ((x @ r) @ rest) =
         concat (map (strippedText defs) (t # ts)) @ strip rest)"
    by simp
  then show ?case by blast
qed

lemma strippedText_id:
  "defs (ttype t) \<noteq> None \<longrightarrow>
     (\<forall>u\<in>set (tvalue t). u \<noteq> 0x0D \<and> u \<noteq> 0x2028 \<and> u \<noteq> 0x2029) \<Longrightarrow>
   strippedText defs t = tvalue t"
  by (cases "defs (ttype t)") (simp_all add: strippedText_def normalizeNewlines_id)

text \<open>
  C1, as amended. Let the tokenizer run to its end on \<open>T\<close> with tokens that keep its
  contract, and let \<open>strip\<close> remove what the styles insert: it leaves a line feed and
  the text of every unstyled token as they are, and gives back every segment of a
  styled token from its styled form. Then \<open>highlight\<close> with \<open>forceColor\<close> returns, the
  flag is what it was, and the stripped result is \<open>T\<close> with every line break inside a
  styled token replaced by one line feed. It is \<open>T\<close> itself when no styled token holds a
  carriage return, a line separator or a paragraph separator.
\<close>

theorem highlight_lossless_up_to_newlines:
  assumes tok: "jsTokens c T = (tokens, None)"
    and cat: "concat (map jvalue tokens) = T"
    and shapes: "\<forall>token\<in>set tokens. templateShape token"
    and idents: "\<forall>token\<in>set tokens. jtype token = IdentifierName \<longrightarrow> jvalue token \<noteq> []"
    and nil: "strip [] = []"
    and lf: "passes strip (js ''\<newline>'')"
    and str: "\<forall>t\<in>set (fst (tokenize c T)). stripsToken strip (getDefs c) t"
  shows "\<exists>out. highlight c T \<lparr>forceColor = Some True\<rparr> enabled = (Inr out, enabled) \<and>
           strip out = concat (map (strippedText (getDefs c)) (fst (tokenize c T))) \<and>
           ((\<forall>t\<in>set (fst (tokenize c T)). getDefs c (ttype t) \<noteq> None \<longrightarrow>
               (\<forall>u\<in>set (tvalue t). u \<noteq> 0x0D \<and> u \<noteq> 0x2028 \<and> u \<noteq> 0x2029)) \<longrightarrow>
            strip out = T)"
proof -
  obtain ts e where te: "tokenize c T = (ts, e)"
    by (cases "tokenize c T")
  with tokenize_texts(1,3) [OF tok shapes idents] cat
  have e: "e = None" and ts: "concat (map tvalue ts) = T"
    by simp_all
  from lf have lf': "passes strip [0x0A]"
    by (simp add: js_simps)
  from str te have "\<forall>t\<in>set ts. stripsToken strip (getDefs c) t"
    by simp
  from highlightLoop_strip [OF lf' this, of "[]"] obtain r
    where r: "highlightLoop (getDefs c) True [] ts = Inr r"
      "\<And>rest. strip (r @ rest) = concat (map (strippedText (getDefs c)) ts) @ strip rest"
    by auto
  from r(2) [of "[]"] nil have sr: "strip r = concat (map (strippedText (getDefs c)) ts)"
    by simp
  have id: "strip r = T"
    if "\<forall>t\<in>set ts. getDefs c (ttype t) \<noteq> None \<longrightarrow>
          (\<forall>u\<in>set (tvalue t). u \<noteq> 0x0D \<and> u \<noteq> 0x2028 \<and> u \<noteq> 0x2029)"
  proof -
    from that have "map (strippedText (getDefs c)) ts = map tvalue ts"
      by (intro map_cong refl strippedText_id) blast
    with sr ts show ?thesis by simp
  qed
  show ?thesis
  proof (cases "T = []")
    case True
    with ts have "\<forall>t\<in>set ts. tvalue t = []"
      by auto
    then have "\<forall>t\<in>set ts. strippedText (getDefs c) t = []"
      by (auto simp: strippedText_def split: option.splits)
    then have "concat (map (strippedText (getDefs c)) ts) = []"
      by simp
    with True te nil show ?thesis
      by (simp add: highlight_def)
  next
    case False
    with te e r(1) sr id show ?thesis
      by (simp add: highlight_def highlightTokens_def Let_def)
  qed
qed

text \<open>
  On the sample text, with the escape sequences of the colour library and
  \<open>stripEscapes\<close>: the only line break inside a styled token is a line feed, and the
  stripped result is the text.
\<close>

lemma sample_strips:
  "\<forall>t\<in>set (fst (tokenize (sample (sampleTokens, None)) sampleText)).
     stripsToken (stripEscapes False) (getDefs (sample (sampleTokens, None))) t"
  unfolding sample_tokenize
  by (simp add: stripsToken_def passes_def stripsStyled_def newline_unit_def sample_simps)

lemma sample_no_other_break:
  "\<forall>t\<in>set (fst (tokenize (sample (sampleTokens, None)) sampleText)).
     getDefs (sample (sampleTokens, None)) (ttype t) \<noteq> None \<longrightarrow>
     (\<forall>u\<in>set (tvalue t). u \<noteq> 0x0D \<and> u \<noteq> 0x2028 \<and> u \<noteq> 0x2029)"
  unfolding sample_tokenize
  by (simp add: js_def)

theorem highlight_lossless_up_to_newlines_witness:
  "map_sum id (stripEscapes False)
     (fst (highlight (sample (sampleTokens, None)) sampleText \<lparr>forceColor = Some True\<rparr> False))
     = Inr sampleText
   \<and> snd (highlight (sample (sampleTokens, None)) sampleText \<lparr>forceColor = Some True\<rparr> False)
     = False"
proof -
  have nil: "stripEscapes False [] = []"
    by simp
  have lf: "passes (stripEscapes False) (js ''\<newline>'')"
    by (simp add: passes_def js_def)
  from highlight_lossless_up_to_newlines
    [OF sample_jsTokens sampleTokens_concat sampleTokens_shape sampleTokens_idents nil lf
      sample_strips, of False]
    sample_no_other_break
  obtain out
    where "highlight (sample (sampleTokens, None)) sampleText \<lparr>forceColor = Some True\<rparr> False
        = (Inr out, False)"
      and "stripEscapes False out = sampleText"
    by blast
  then show ?thesis by simp
qed

text \<open>
  A comment with a carriage return and a line feed inside: the renderer writes one
  line feed between the two styled lines, and the stripped result is one code unit
  shorter than the text.
\<close>

theorem highlight_not_lossless_crlf:
  "map_sum id (stripEscapes False)
     (fst (highlight
        (sample ([\<lparr>jtype = MultiLineComment, jvalue = js ''/*'' @ [0x0D, 0x0A] @ js ''*/''\<rparr>],
                 None))
        (js ''/*'' @ [0x0D, 0x0A] @ js ''*/'') \<lparr>forceColor = Some True\<rparr> False))
     = Inr (js ''/*\<newline>*/'')
   \<and> js ''/*\<newline>*/'' \<noteq> js ''/*'' @ [0x0D, 0x0A] @ js ''*/''"
  by (simp add: highlight_def highlightTokens_def tokenize_def getTokenType_def
      highlightToken_def newline_unit_def sample_simps)

end
